theory Spec2Isabelle
  imports Main "HOL-Library.Sublist" "HOL-Library.Word"
begin

section \<open>The reader generator of codebraid-preview (pandoc/lib/reader\_generator.py)\<close>

text \<open>
  The script is a module-level loop over a fixed list of Pandoc format names. For each
  name it replaces the token \<^verbatim>\<open><format>\<close> in a fixed Lua template and writes the
  result, encoded as UTF-8, to \<^verbatim>\<open>../readers/<name>.lua\<close>. There is no function, no
  \<^verbatim>\<open>try\<close> and no \<^verbatim>\<open>print\<close> in the file.

  Python strings are modelled as \<^typ>\<open>string\<close>, one \<^typ>\<open>char\<close> per code point (so code
  points below 256; every literal of the script is ASCII). File contents are bytes.
\<close>

unbundle bit_operations_syntax

subsection \<open>Data\<close>

type_synonym path = string
type_synonym bytes = "8 word list"
type_synonym filesystem = "path \<rightharpoonup> bytes"

text \<open>The exceptions \<^verbatim>\<open>Path.write_text\<close> raises when the file cannot be opened or written.\<close>

datatype py_error = FileNotFoundError | PermissionError | IsADirectoryError | OSError

text \<open>
  \<^verbatim>\<open>Path.write_text\<close> opens the path with mode \<^verbatim>\<open>'w'\<close> and then writes. A write can
  fail in two ways: the open is refused (a missing directory, a missing permission, a
  directory at the path), and nothing on disk has changed; or the open has gone through,
  so that the file is there and empty, and the writing breaks off (no room left, a file
  size limit) after some number of bytes have reached the file.
\<close>

datatype fault = Refused py_error | Broken py_error nat

text \<open>
  What the operating system does with the write to a path: \<open>None\<close> lets it through,
  \<open>Some flt\<close> makes \<^verbatim>\<open>write_text\<close> fail with the fault \<open>flt\<close>.
\<close>

type_synonym io_env = "path \<Rightarrow> fault option"

text \<open>
  The state the loop runs in: the module variable \<^verbatim>\<open>template\<close> and the files on disk.
\<close>

record state =
  tmpl :: string
  files :: filesystem

text \<open>\<^verbatim>\<open>formats = [...]\<close>, lines 4 to 11.\<close>

definition formats :: "string list" where
  "formats =
    [''commonmark'', ''commonmark_x'', ''gfm'',
     ''markdown'', ''markdown_mmd'', ''markdown_phpextra'', ''markdown_strict'',
     ''latex'',
     ''org'',
     ''rst'',
     ''textile'']"

text \<open>
  \<^verbatim>\<open>template = '''\ ... '''\<close>, lines 13 to 30. The backslash after the opening quotes
  removes the first line break; every line of the literal, the last included, ends with a
  line feed.
\<close>

definition nl :: string where
  "nl = [CHR 0x0A]"

definition template :: string where
  "template =
     ''-- Copyright (c) 2023, Geoffrey M. Poore'' @ nl @
     ''-- All rights reserved.'' @ nl @
     ''--'' @ nl @
     ''-- Licensed under the BSD 3-Clause License:'' @ nl @
     ''-- http://opensource.org/licenses/BSD-3-Clause'' @ nl @
     ''--'' @ nl @
     nl @
     ''local format = '' @ [CHR 0x27] @ ''<format>'' @ [CHR 0x27] @ nl @
     ''local readerlib = dofile(pandoc.path.join{pandoc.path.directory(PANDOC_SCRIPT_FILE), ''
       @ [CHR 0x27] @ ''../lib/readerlib.lua'' @ [CHR 0x27] @ ''})'' @ nl @
     nl @
     ''Extensions = readerlib.getExtensions(format)'' @ nl @
     nl @
     ''function Reader(sources, opts)'' @ nl @
     ''    return readerlib.read(sources, format, opts)'' @ nl @
     ''end'' @ nl"

subsection \<open>The library calls of the loop body\<close>

text \<open>
  \<^verbatim>\<open>str.replace(old, new)\<close>: one scan from the left; at a position where \<open>old\<close> starts
  the output gets \<open>new\<close> and the scan resumes behind the match, in the input. An empty
  \<open>old\<close> matches before every character and at the end.
\<close>

function str_replace :: "string \<Rightarrow> string \<Rightarrow> string \<Rightarrow> string" where
  "str_replace [] old new = (if old = [] then new else [])"
| "str_replace (c # cs) old new =
     (if old = [] then new @ c # str_replace cs old new
      else if prefix old (c # cs)
        then new @ str_replace (drop (length old) (c # cs)) old new
      else c # str_replace cs old new)"
  by pat_completeness auto
termination
  by (relation "measure (\<lambda>(s, old, new). length s)") auto

text \<open>
  \<^verbatim>\<open>str.encode('utf8')\<close> on code points below 256: one byte below 128, two bytes from
  128 on.
\<close>

definition utf8_char :: "char \<Rightarrow> bytes" where
  "utf8_char c =
     (let cp = (of_char c :: nat) in
      if cp < 128 then [of_nat cp]
      else [of_nat (192 + cp div 64), of_nat (128 + cp mod 64)])"

definition encode_utf8 :: "string \<Rightarrow> bytes" where
  "encode_utf8 s = concat (map utf8_char s)"

text \<open>
  \<^verbatim>\<open>Path.write_text(data, encoding='utf8')\<close>, which is
  \<^verbatim>\<open>with self.open(mode='w', ...) as f: return f.write(data)\<close>: the open creates the file
  or empties it, then the encoded text is written and the file closed. When the open is
  refused the exception leaves and the disk is as it was. When the writing breaks off
  after \<open>n\<close> bytes the exception leaves a file that holds those \<open>n\<close> bytes only (none
  of its old content). Line feeds are written as they are (the POSIX text layer).
\<close>

definition write_text ::
  "io_env \<Rightarrow> filesystem \<Rightarrow> path \<Rightarrow> string \<Rightarrow> (py_error \<times> filesystem) + filesystem" where
  "write_text env fs p data =
     (case env p of
        None \<Rightarrow> Inr (fs(p \<mapsto> encode_utf8 data))
      | Some (Refused e) \<Rightarrow> Inl (e, fs)
      | Some (Broken e n) \<Rightarrow> Inl (e, fs(p \<mapsto> take n (encode_utf8 data))))"

subsection \<open>The loop\<close>

text \<open>\<^verbatim>\<open>pathlib.Path(f'../readers/{format}.lua')\<close>, line 32.\<close>

definition file_path :: "string \<Rightarrow> path" where
  "file_path format = ''../readers/'' @ format @ ''.lua''"

text \<open>The rendered text of line 33, \<^verbatim>\<open>template.replace('<format>', format)\<close>.\<close>

definition render :: "string \<Rightarrow> string \<Rightarrow> string" where
  "render t format = str_replace t ''<format>'' format"

text \<open>
  One pass through the loop body, lines 32 and 33. An exception of \<^verbatim>\<open>write_text\<close> is not
  caught: it comes back with the state the failed write left.
\<close>

definition emit :: "io_env \<Rightarrow> string \<Rightarrow> state \<Rightarrow> (py_error \<times> state) + state" where
  "emit env format s =
     (case write_text env (files s) (file_path format) (render (tmpl s) format) of
        Inl (e, fs') \<Rightarrow> Inl (e, s\<lparr>files := fs'\<rparr>)
      | Inr fs' \<Rightarrow> Inr (s\<lparr>files := fs'\<rparr>))"

text \<open>
  \<^verbatim>\<open>for format in formats:\<close>, line 31. The first exception ends the loop, and with it the
  script.
\<close>

fun generate :: "io_env \<Rightarrow> string list \<Rightarrow> state \<Rightarrow> (py_error \<times> state) + state" where
  "generate env [] s = Inr s"
| "generate env (format # rest) s =
     (case emit env format s of
        Inl err \<Rightarrow> Inl err
      | Inr s' \<Rightarrow> generate env rest s')"

text \<open>The script as a whole, started on a disk \<open>fs\<close>.\<close>

definition main :: "io_env \<Rightarrow> filesystem \<Rightarrow> (py_error \<times> state) + state" where
  "main env fs = generate env formats \<lparr>tmpl = template, files = fs\<rparr>"

text \<open>
  What the interpreter makes of the outcome: an uncaught exception prints its traceback
  on the error stream and the process exits with status 1; otherwise the script prints
  nothing and exits with status 0.
\<close>

definition exit_status :: "(py_error \<times> state) + state \<Rightarrow> nat" where
  "exit_status r = (case r of Inl _ \<Rightarrow> 1 | Inr _ \<Rightarrow> 0)"

definition stderr_report :: "(py_error \<times> state) + state \<Rightarrow> py_error list" where
  "stderr_report r = (case r of Inl (e, _) \<Rightarrow> [e] | Inr _ \<Rightarrow> [])"

definition final_state :: "(py_error \<times> state) + state \<Rightarrow> state" where
  "final_state r = (case r of Inl (_, s) \<Rightarrow> s | Inr s \<Rightarrow> s)"

subsection \<open>Notions of the specification\<close>

text \<open>
  The number of occurrences of a token in a text: the positions of the text at which the
  token starts.
\<close>

fun occurrences :: "string \<Rightarrow> string \<Rightarrow> nat" where
  "occurrences old [] = (if old = [] then 1 else 0)"
| "occurrences old (c # cs) = (if prefix old (c # cs) then 1 else 0) + occurrences old cs"

text \<open>Segments put together with a separator between neighbours (\<^verbatim>\<open>sep.join\<close>).\<close>

fun join :: "string \<Rightarrow> string list \<Rightarrow> string" where
  "join sep [] = []"
| "join sep [p] = p"
| "join sep (p # q # ps) = p @ sep @ join sep (q # ps)"

text \<open>
  Characters that a format name must not have: the path separators and white space
  (the characters below 256 for which \<^verbatim>\<open>str.isspace\<close> holds).
\<close>

definition path_separator :: "char \<Rightarrow> bool" where
  "path_separator c = (c = CHR ''/'' \<or> c = CHR 0x5C)"

definition whitespace :: "char \<Rightarrow> bool" where
  "whitespace c = (c \<in> set [CHR '' '', CHR 0x09, CHR 0x0A, CHR 0x0B, CHR 0x0C, CHR 0x0D,
                               CHR 0x1C, CHR 0x1D, CHR 0x1E, CHR 0x1F, CHR 0x85, CHR 0xA0])"

definition valid_identifier :: "string \<Rightarrow> bool" where
  "valid_identifier f = (f \<noteq> [] \<and> list_all (\<lambda>c. \<not> path_separator c \<and> \<not> whitespace c) f)"

text \<open>
  Three environments: every write is let through; the open of one path is refused; the
  write to one path breaks off after \<open>n\<close> bytes.
\<close>

fun allow_all :: io_env where
  "allow_all p = None"

fun deny_only :: "path \<Rightarrow> py_error \<Rightarrow> io_env" where
  "deny_only q e p = (if p = q then Some (Refused e) else None)"

fun break_only :: "path \<Rightarrow> py_error \<Rightarrow> nat \<Rightarrow> io_env" where
  "break_only q e n p = (if p = q then Some (Broken e n) else None)"

text \<open>
  The exception a fault raises, and what a failed write leaves at its path, given the
  bytes it was to write and what was at the path before.
\<close>

fun raised :: "fault \<Rightarrow> py_error" where
  "raised (Refused e) = e"
| "raised (Broken e n) = e"

fun left_behind :: "fault \<Rightarrow> bytes \<Rightarrow> bytes option \<Rightarrow> bytes option" where
  "left_behind (Refused e) new old = old"
| "left_behind (Broken e n) new old = Some (take n new)"

text \<open>The files a list of format names accounts for, written one after the other.\<close>

definition written :: "string \<Rightarrow> string list \<Rightarrow> filesystem \<Rightarrow> filesystem" where
  "written t fmts fs = fold (\<lambda>f m. m(file_path f \<mapsto> encode_utf8 (render t f))) fmts fs"

section \<open>Properties\<close>

subsection \<open>Replacement\<close>

lemma str_replace_append_free:
  assumes "old \<noteq> []" "hd old \<notin> set u"
  shows "str_replace (u @ s) old new = u @ str_replace s old new"
  using assms
proof (induction u)
  case Nil
  then show ?case by simp
next
  case (Cons c u)
  then have "\<not> prefix old (c # (u @ s))"
    by (cases old) auto
  with Cons show ?case by simp
qed

lemma occurrences_append_free:
  assumes "old \<noteq> []" "hd old \<notin> set u"
  shows "occurrences old (u @ s) = occurrences old s"
  using assms
proof (induction u)
  case Nil
  then show ?case by simp
next
  case (Cons c u)
  then have "\<not> prefix old (c # (u @ s))"
    by (cases old) auto
  with Cons show ?case by simp
qed

lemma occurrences_match:
  assumes "old \<noteq> []" "hd old \<notin> set (tl old)"
  shows "occurrences old (old @ s) = Suc (occurrences old s)"
proof -
  obtain c cs where old: "old = c # cs"
    using assms(1) by (cases old) auto
  have "occurrences old (old @ s) = 1 + occurrences old (cs @ s)"
    by (simp add: old)
  also have "occurrences old (cs @ s) = occurrences old s"
    using assms old by (intro occurrences_append_free) auto
  finally show ?thesis by simp
qed

lemma str_replace_match:
  assumes "old \<noteq> []"
  shows "str_replace (old @ s) old new = new @ str_replace s old new"
proof -
  obtain c cs where old: "old = c # cs"
    using assms by (cases old) auto
  have "str_replace ((c # cs) @ s) (c # cs) new =
          new @ str_replace (drop (length (c # cs)) ((c # cs) @ s)) (c # cs) new"
    by (simp del: drop_Suc_Cons)
  then show ?thesis by (simp add: old)
qed

lemma length_str_replace:
  assumes "old \<noteq> []" "hd old \<notin> set (tl old)"
  shows "int (length (str_replace s old new)) =
           int (length s) + int (occurrences old s) * (int (length new) - int (length old))"
  using assms
proof (induction s old new rule: str_replace.induct)
  case (1 old new)
  then show ?case by simp
next
  case (2 c cs old new)
  show ?case
  proof (cases "prefix old (c # cs)")
    case True
    then obtain r where r: "c # cs = old @ r"
      by (auto simp: prefix_def)
    have d: "drop (length old) (c # cs) = r"
      by (simp add: r)
    have ih: "int (length (str_replace r old new)) =
           int (length r) + int (occurrences old r) * (int (length new) - int (length old))"
      using 2(2)[OF \<open>old \<noteq> []\<close> True] 2(4,5) d by simp
    have "str_replace (c # cs) old new = new @ str_replace r old new"
      unfolding r using 2(4) by (rule str_replace_match)
    moreover have "occurrences old (c # cs) = Suc (occurrences old r)"
      unfolding r using 2(4,5) by (rule occurrences_match)
    moreover have "length (c # cs) = length old + length r"
      unfolding r by simp
    ultimately show ?thesis
      using ih by (simp add: algebra_simps)
  next
    case False
    with 2 show ?thesis by simp
  qed
qed

lemma prefix_occurrences_pos:
  "prefix old s \<Longrightarrow> 0 < occurrences old s"
  by (cases s) auto

lemma occurrences_zero_not_prefix:
  "occurrences old s = 0 \<Longrightarrow> \<not> prefix old s"
  using prefix_occurrences_pos by fastforce

lemma occurrences_append_le_right: "occurrences old s \<le> occurrences old (u @ s)"
  by (induction u) auto

lemma occurrences_append_le_left:
  assumes "old \<noteq> []"
  shows "occurrences old s \<le> occurrences old (s @ v)"
  using assms
proof (induction s)
  case Nil
  then show ?case by simp
next
  case (Cons c s)
  have "prefix old (c # s) \<Longrightarrow> prefix old (c # s @ v)"
    by (metis append_Cons prefix_prefix)
  with Cons show ?case by auto
qed

lemma str_replace_no_occurrence:
  assumes "old \<noteq> []" "occurrences old s = 0"
  shows "str_replace s old new = s"
  using assms
proof (induction s)
  case Nil
  then show ?case by simp
next
  case (Cons c s)
  then show ?case by (auto split: if_splits)
qed

lemma join_Cons: "ps \<noteq> [] \<Longrightarrow> join sep (p # ps) = p @ sep @ join sep ps"
  by (cases ps) auto

lemma str_replace_pieces:
  assumes "old \<noteq> []" "hd old \<notin> set (tl old)"
  shows "\<exists>ps. length ps = Suc (occurrences old s) \<and> s = join old ps \<and>
              str_replace s old new = join new ps \<and> list_all (\<lambda>p. occurrences old p = 0) ps"
  using assms
proof (induction s old new rule: str_replace.induct)
  case (1 old new)
  then have "length [[]::string] = Suc (occurrences old []) \<and> [] = join old [[]] \<and>
     str_replace [] old new = join new [[]] \<and> list_all (\<lambda>p. occurrences old p = 0) [[]]"
    by simp
  then show ?case by blast
next
  case (2 c cs old new)
  show ?case
  proof (cases "prefix old (c # cs)")
    case True
    then obtain r where r: "c # cs = old @ r"
      by (auto simp: prefix_def)
    have d: "drop (length old) (c # cs) = r"
      by (simp add: r)
    from 2(2)[OF \<open>old \<noteq> []\<close> True] 2(4,5) d
    obtain ps where ps: "length ps = Suc (occurrences old r)" "r = join old ps"
      "str_replace r old new = join new ps" "list_all (\<lambda>p. occurrences old p = 0) ps"
      by auto
    have ne: "ps \<noteq> []" using ps(1) by auto
    have "length ([] # ps) = Suc (occurrences old (c # cs))"
      unfolding r using ps(1) occurrences_match[OF 2(4,5)] by simp
    moreover have "c # cs = join old ([] # ps)"
      unfolding r using ps(2) ne by (simp add: join_Cons)
    moreover have "str_replace (c # cs) old new = join new ([] # ps)"
      unfolding r using ps(3) ne str_replace_match[OF 2(4)] by (simp add: join_Cons)
    moreover have "list_all (\<lambda>p. occurrences old p = 0) ([] # ps)"
      using ps(4) 2(4) by simp
    ultimately show ?thesis by blast
  next
    case False
    from 2(3)[OF \<open>old \<noteq> []\<close> False] 2(4,5)
    obtain ps where ps: "length ps = Suc (occurrences old cs)" "cs = join old ps"
      "str_replace cs old new = join new ps" "list_all (\<lambda>p. occurrences old p = 0) ps"
      by auto
    then obtain p qs where pq: "ps = p # qs" by (cases ps) auto
    have np: "\<not> prefix old (c # p)"
    proof
      assume "prefix old (c # p)"
      moreover obtain rest where "join old (p # qs) = p @ rest"
        by (cases qs) auto
      ultimately have "prefix old (c # join old (p # qs))"
        by (metis append_Cons prefix_prefix)
      with False ps(2) pq show False by simp
    qed
    have "length ((c # p) # qs) = Suc (occurrences old (c # cs))"
      using ps(1) pq False by simp
    moreover have "c # cs = join old ((c # p) # qs)"
      using ps(2) pq by (cases qs) auto
    moreover have "str_replace (c # cs) old new = join new ((c # p) # qs)"
      using ps(3) pq False 2(4) by (cases qs) auto
    moreover have "list_all (\<lambda>p. occurrences old p = 0) ((c # p) # qs)"
      using ps(4) pq np by simp
    ultimately show ?thesis by blast
  qed
qed

lemma no_match_before:
  assumes "old \<noteq> []" "hd old \<notin> set (tl old)" "\<not> prefix old (c # a)"
  shows "\<not> prefix old (c # a @ old @ b)"
proof
  assume "prefix old (c # a @ old @ b)"
  then have "prefix old ((c # a) @ (old @ b))" by simp
  with assms(3) obtain x where x: "old = (c # a) @ x" "prefix x (old @ b)"
    unfolding prefix_append by blast
  from x(1) assms(3) have "x \<noteq> []" by auto
  with x(2) assms(1) have "hd x = hd old"
    by (cases x; cases old) auto
  with \<open>x \<noteq> []\<close> x(1) have "hd old \<in> set (tl old)"
    by (metis Un_iff hd_in_set list.sel(3) append_Cons set_append)
  with assms(2) show False by simp
qed

lemma str_replace_first_occurrence:
  assumes "old \<noteq> []" "hd old \<notin> set (tl old)" "occurrences old a = 0"
  shows "str_replace (a @ old @ b) old new = a @ new @ str_replace b old new"
  using assms(3)
proof (induction a)
  case Nil
  show ?case using str_replace_match[OF assms(1)] by simp
next
  case (Cons c a)
  from Cons.prems have "\<not> prefix old (c # a)" "occurrences old a = 0"
    by (auto split: if_splits)
  with Cons.IH no_match_before[OF assms(1,2)] assms(1) show ?case by simp
qed

lemma occurrences_infix:
  assumes "old \<noteq> []"
  shows "occurrences old f \<le> occurrences old (a @ f @ b)"
  using occurrences_append_le_left[OF assms, of f b] occurrences_append_le_right[of old "f @ b" a]
  by simp

text \<open>
  C5. For every template and every identifier, the length of the rendered text is the
  length of the template plus the number of occurrences of the placeholder times the
  difference of the identifier's length and the placeholder's length.
\<close>

theorem render_length:
  "int (length (render t f)) =
     int (length t) + int (occurrences ''<format>'' t) * (int (length f) - int (length ''<format>''))"
  unfolding render_def by (rule length_str_replace) simp_all

text \<open>
  C9. Substitution is a single pass and does not recurse. At the first occurrence of the
  placeholder the identifier is put into the output as it is, and the scan goes on in
  the rest of the template, not in the identifier; so for any identifier, one that
  contains the placeholder included, the occurrences it brings are still in the result.
\<close>

theorem render_single_pass:
  assumes "occurrences ''<format>'' a = 0"
  shows "render (a @ ''<format>'' @ b) f = a @ f @ render b f \<and>
         occurrences ''<format>'' f \<le> occurrences ''<format>'' (render (a @ ''<format>'' @ b) f)"
proof -
  have eq: "render (a @ ''<format>'' @ b) f = a @ f @ render b f"
    unfolding render_def using assms by (intro str_replace_first_occurrence) simp_all
  have "occurrences ''<format>'' f \<le> occurrences ''<format>'' (a @ f @ render b f)"
    by (rule occurrences_infix) simp
  with eq show ?thesis by simp
qed

theorem render_single_pass_witness:
  "occurrences ''<format>'' ''a = '' = 0 \<and>
   render (''a = '' @ ''<format>'' @ ''; b'') ''x<format>y'' = ''a = x<format>y; b'' \<and>
   occurrences ''<format>'' ''x<format>y'' = 1 \<and>
   1 \<le> occurrences ''<format>'' (render (''a = '' @ ''<format>'' @ ''; b'') ''x<format>y'')"
proof -
  have h: "occurrences ''<format>'' ''a = '' = 0"
    by simp
  have r: "render ''; b'' ''x<format>y'' = ''; b''"
    by (simp add: render_def)
  have o: "occurrences ''<format>'' ''x<format>y'' = 1"
    by simp
  show ?thesis
    using h r o render_single_pass [OF h, of "''; b''" "''x<format>y''"] by simp
qed

subsection \<open>The loop and the files it writes\<close>

lemma file_path_inj [simp]: "file_path a = file_path b \<longleftrightarrow> a = b"
  by (simp add: file_path_def)

lemma emit_allowed:
  "env (file_path f) = None \<Longrightarrow>
   emit env f s = Inr (s\<lparr>files := (files s)(file_path f \<mapsto> encode_utf8 (render (tmpl s) f))\<rparr>)"
  by (simp add: emit_def write_text_def)

lemma emit_denied:
  "env (file_path f) = Some flt \<Longrightarrow>
   emit env f s =
     Inl (raised flt,
          s\<lparr>files := (files s)(file_path f :=
                left_behind flt (encode_utf8 (render (tmpl s) f)) (files s (file_path f)))\<rparr>)"
  by (cases flt) (simp_all add: emit_def write_text_def)

lemma written_Nil [simp]: "written t [] fs = fs"
  by (simp add: written_def)

lemma written_Cons [simp]:
  "written t (f # fmts) fs = written t fmts (fs(file_path f \<mapsto> encode_utf8 (render t f)))"
  by (simp add: written_def)

lemma written_append [simp]:
  "written t (xs @ ys) fs = written t ys (written t xs fs)"
  by (simp add: written_def)

lemma written_outside:
  "p \<notin> file_path ` set fmts \<Longrightarrow> written t fmts fs p = fs p"
  by (induction fmts arbitrary: fs) auto

lemma written_inside:
  "f \<in> set fmts \<Longrightarrow> written t fmts fs (file_path f) = Some (encode_utf8 (render t f))"
proof (induction fmts arbitrary: fs)
  case Nil
  then show ?case by simp
next
  case (Cons g fmts)
  show ?case
  proof (cases "f \<in> set fmts")
    case True
    with Cons.IH show ?thesis by simp
  next
    case False
    with Cons.prems have "f = g" by simp
    moreover from False have "file_path f \<notin> file_path ` set fmts" by auto
    ultimately show ?thesis by (simp add: written_outside)
  qed
qed

lemma written_idem: "written t fmts (written t fmts fs) = written t fmts fs"
proof
  fix p
  show "written t fmts (written t fmts fs) p = written t fmts fs p"
  proof (cases "p \<in> file_path ` set fmts")
    case True
    then obtain f where "f \<in> set fmts" "p = file_path f" by auto
    then show ?thesis by (simp add: written_inside)
  next
    case False
    then show ?thesis by (simp add: written_outside)
  qed
qed

lemma generate_allowed:
  "list_all (\<lambda>f. env (file_path f) = None) fmts \<Longrightarrow>
   generate env fmts s = Inr (s\<lparr>files := written (tmpl s) fmts (files s)\<rparr>)"
  by (induction fmts arbitrary: s) (simp_all add: emit_allowed)

lemma generate_denied:
  "list_all (\<lambda>f. env (file_path f) = None) pre \<Longrightarrow> env (file_path f) = Some flt \<Longrightarrow>
   generate env (pre @ f # post) s =
     Inl (raised flt,
          s\<lparr>files := (written (tmpl s) pre (files s))(file_path f :=
                left_behind flt (encode_utf8 (render (tmpl s) f))
                  (written (tmpl s) pre (files s) (file_path f)))\<rparr>)"
  by (induction pre arbitrary: s) (simp_all add: emit_allowed emit_denied)

lemma generate_Inr_allowed:
  "generate env fmts s = Inr s' \<Longrightarrow> list_all (\<lambda>f. env (file_path f) = None) fmts"
proof (induction fmts arbitrary: s)
  case Nil
  then show ?case by simp
next
  case (Cons f fmts)
  show ?case
  proof (cases "env (file_path f)")
    case None
    with Cons show ?thesis by (auto simp: emit_allowed)
  next
    case (Some e)
    with Cons.prems show ?thesis by (simp add: emit_denied)
  qed
qed

lemma generate_Inr:
  "generate env fmts s = Inr s' \<Longrightarrow> s' = s\<lparr>files := written (tmpl s) fmts (files s)\<rparr>"
  using generate_Inr_allowed generate_allowed by fastforce

lemma generate_cases:
  obtains "list_all (\<lambda>f. env (file_path f) = None) fmts"
  | pre f post flt where "fmts = pre @ f # post" "list_all (\<lambda>f. env (file_path f) = None) pre"
      "env (file_path f) = Some flt"
proof (cases "list_all (\<lambda>f. env (file_path f) = None) fmts")
  case True
  then show ?thesis using that by blast
next
  case False
  then have "\<exists>x\<in>set fmts. env (file_path x) \<noteq> None"
    by (auto simp: list_all_iff)
  then obtain pre f post where "fmts = pre @ f # post" "env (file_path f) \<noteq> None"
    "\<forall>y\<in>set pre. \<not> env (file_path y) \<noteq> None"
    using split_list_first_prop[of fmts "\<lambda>x. env (file_path x) \<noteq> None"] by blast
  then show ?thesis using that(2)[of pre f post] by (auto simp: list_all_iff)
qed

lemma failed_write_again:
  assumes "list_all (\<lambda>g. env (file_path g) = None) pre" and "env (file_path f) = Some flt"
  shows "(written t pre ((written t pre fs)(file_path f := left_behind flt new (written t pre fs (file_path f)))))
           (file_path f := left_behind flt new
              (written t pre ((written t pre fs)(file_path f := left_behind flt new (written t pre fs (file_path f))))
                 (file_path f)))
         = (written t pre fs)(file_path f := left_behind flt new (written t pre fs (file_path f)))"
proof -
  have out: "file_path f \<notin> file_path ` set pre"
    using assms by (auto simp: list_all_iff)
  let ?F = "(written t pre fs)(file_path f := left_behind flt new (written t pre fs (file_path f)))"
  have at: "left_behind flt new (written t pre ?F (file_path f)) = ?F (file_path f)"
    using out by (cases flt) (simp_all add: written_outside)
  have "((written t pre ?F)(file_path f := left_behind flt new (written t pre ?F (file_path f)))) p = ?F p"
    for p
  proof (cases "p = file_path f")
    case True
    then show ?thesis using at by simp
  next
    case False
    show ?thesis
    proof (cases "p \<in> file_path ` set pre")
      case True
      then obtain g where "g \<in> set pre" "p = file_path g" by auto
      with False show ?thesis by (simp add: written_inside)
    next
      case outside: False
      with False show ?thesis by (simp add: written_outside)
    qed
  qed
  then show ?thesis by (intro ext)
qed

lemma generate_twice:
  "generate env fmts (final_state (generate env fmts s)) = generate env fmts s"
proof (cases rule: generate_cases[of env fmts])
  case 1
  then show ?thesis
    by (simp add: generate_allowed final_state_def written_idem)
next
  case (2 pre f post flt)
  then show ?thesis
    by (simp add: generate_denied final_state_def failed_write_again)
qed

subsection \<open>The constants of the script\<close>

lemma template_split: "template = take 179 template @ ''<format>'' @ drop 187 template"
  by (simp add: template_def nl_def)

lemma template_head_free: "occurrences ''<format>'' (take 179 template) = 0"
  by (simp add: template_def nl_def)

lemma template_tail_free: "occurrences ''<format>'' (drop 187 template) = 0"
  by (simp add: template_def nl_def)

lemma template_occurrences: "occurrences ''<format>'' template = 1"
  by (simp add: template_def nl_def)

lemma utf8_ascii: "list_all (\<lambda>c. (of_char c :: nat) < 128) s \<Longrightarrow> encode_utf8 s = map (\<lambda>c. of_nat (of_char c)) s"
  by (induction s) (simp_all add: encode_utf8_def utf8_char_def)

lemma template_ascii: "list_all (\<lambda>c. (of_char c :: nat) < 128) template"
  by (simp add: template_def nl_def)

lemma formats_ascii: "list_all (list_all (\<lambda>c. (of_char c :: nat) < 128)) formats"
  by (simp add: formats_def)

lemma formats_facts: "distinct formats \<and> list_all valid_identifier formats \<and> length formats = 11"
  by (simp add: formats_def valid_identifier_def path_separator_def whitespace_def)

lemma render_template:
  "render template f = take 179 template @ f @ drop 187 template"
proof -
  have "render template f = render (take 179 template @ ''<format>'' @ drop 187 template) f"
    using template_split by simp
  also have "\<dots> = take 179 template @ f @ render (drop 187 template) f"
    unfolding render_def using template_head_free
    by (intro str_replace_first_occurrence) simp_all
  also have "render (drop 187 template) f = drop 187 template"
    unfolding render_def using template_tail_free
    by (intro str_replace_no_occurrence) simp_all
  finally show ?thesis .
qed

lemma render_pieces:
  "\<exists>ps. length ps = Suc (occurrences ''<format>'' t) \<and> t = join ''<format>'' ps \<and>
        render t f = join f ps \<and> list_all (\<lambda>p. occurrences ''<format>'' p = 0) ps"
  unfolding render_def by (rule str_replace_pieces) simp_all

lemma render_ascii:
  assumes "f \<in> set formats"
  shows "list_all (\<lambda>c. (of_char c :: nat) < 128) (render template f)"
proof -
  have t: "\<forall>c\<in>set template. (of_char c :: nat) < 128"
    using template_ascii by (simp add: list_all_iff)
  have "\<forall>c\<in>set f. (of_char c :: nat) < 128"
    using formats_ascii assms by (simp add: list_all_iff)
  with t show ?thesis
    unfolding render_template list_all_iff
    by (auto dest: in_set_takeD in_set_dropD)
qed

text \<open>
  C1. When no write fails, the run ends normally and, for every format name of the
  registry, the file at the path \<^verbatim>\<open>../readers/\<close> + name + \<^verbatim>\<open>.lua\<close> exists and holds the
  UTF-8 encoding (here one byte per character, all the text being ASCII) of the template
  with every occurrence of the placeholder replaced by the name: the text before the one
  placeholder, the name, the text behind it, and in general the segments between the
  placeholders, unchanged, put together with the name.
\<close>

theorem main_writes_every_format:
  assumes "\<forall>f\<in>set formats. env (file_path f) = None"
  shows "\<exists>s'. main env fs = Inr s' \<and>
           (\<forall>f\<in>set formats.
              file_path f = ''../readers/'' @ f @ ''.lua'' \<and>
              files s' (''../readers/'' @ f @ ''.lua'') = Some (encode_utf8 (render template f)) \<and>
              files s' (file_path f) = Some (encode_utf8 (render template f)) \<and>
              encode_utf8 (render template f) = map (\<lambda>c. of_nat (of_char c)) (render template f) \<and>
              render template f = take 179 template @ f @ drop 187 template \<and>
              template = take 179 template @ ''<format>'' @ drop 187 template \<and>
              (\<exists>ps. length ps = Suc (occurrences ''<format>'' template) \<and>
                    template = join ''<format>'' ps \<and> render template f = join f ps \<and>
                    list_all (\<lambda>p. occurrences ''<format>'' p = 0) ps))"
proof -
  let ?s' = "\<lparr>tmpl = template, files = written template formats fs\<rparr>"
  have run: "main env fs = Inr ?s'"
    unfolding main_def using assms by (simp add: generate_allowed list_all_iff)
  have "file_path f = ''../readers/'' @ f @ ''.lua'' \<and>
        files ?s' (''../readers/'' @ f @ ''.lua'') = Some (encode_utf8 (render template f)) \<and>
        files ?s' (file_path f) = Some (encode_utf8 (render template f)) \<and>
        encode_utf8 (render template f) = map (\<lambda>c. of_nat (of_char c)) (render template f) \<and>
        render template f = take 179 template @ f @ drop 187 template \<and>
        template = take 179 template @ ''<format>'' @ drop 187 template \<and>
        (\<exists>ps. length ps = Suc (occurrences ''<format>'' template) \<and>
              template = join ''<format>'' ps \<and> render template f = join f ps \<and>
              list_all (\<lambda>p. occurrences ''<format>'' p = 0) ps)"
    if "f \<in> set formats" for f
  proof (intro conjI)
    show p: "file_path f = ''../readers/'' @ f @ ''.lua''"
      by (simp add: file_path_def)
    show w: "files ?s' (file_path f) = Some (encode_utf8 (render template f))"
      using that by (simp add: written_inside)
    show "files ?s' (''../readers/'' @ f @ ''.lua'') = Some (encode_utf8 (render template f))"
      using w unfolding p .
    show "encode_utf8 (render template f) = map (\<lambda>c. of_nat (of_char c)) (render template f)"
      using that by (intro utf8_ascii render_ascii)
    show "render template f = take 179 template @ f @ drop 187 template"
      by (rule render_template)
    show "template = take 179 template @ ''<format>'' @ drop 187 template"
      by (rule template_split)
    show "\<exists>ps. length ps = Suc (occurrences ''<format>'' template) \<and>
              template = join ''<format>'' ps \<and> render template f = join f ps \<and>
              list_all (\<lambda>p. occurrences ''<format>'' p = 0) ps"
      by (rule render_pieces)
  qed
  with run show ?thesis by blast
qed

theorem main_writes_every_format_witness:
  "list_all (\<lambda>f. allow_all (file_path f) = None) formats \<and>
   ''gfm'' \<in> set formats \<and>
   file_path ''gfm'' = ''../readers/gfm.lua'' \<and>
   files (final_state (main allow_all Map.empty)) ''../readers/gfm.lua'' =
     Some (encode_utf8 (take 179 template @ ''gfm'' @ drop 187 template))"
proof -
  have h: "\<forall>f\<in>set formats. allow_all (file_path f) = None"
    by simp
  have g: "''gfm'' \<in> set formats"
    by (simp add: formats_def)
  from main_writes_every_format [OF h, of Map.empty] g
  obtain s' where "main allow_all Map.empty = Inr s'"
    "file_path ''gfm'' = ''../readers/'' @ ''gfm'' @ ''.lua''"
    "files s' (''../readers/'' @ ''gfm'' @ ''.lua'') = Some (encode_utf8 (render template ''gfm''))"
    "render template ''gfm'' = take 179 template @ ''gfm'' @ drop 187 template"
    by blast
  then show ?thesis
    using h g by (simp add: final_state_def list_all_iff)
qed

subsection \<open>Failure of a write\<close>

lemma tmpl_generate: "tmpl (final_state (generate env fmts s)) = tmpl s"
proof (cases rule: generate_cases[of env fmts])
  case 1
  then show ?thesis by (simp add: generate_allowed final_state_def)
next
  case (2 pre f post flt)
  then show ?thesis by (simp add: generate_denied final_state_def)
qed

text \<open>
  C2, as the specification states it, does not hold. The refused write of
  \<^verbatim>\<open>commonmark.lua\<close> raises, nothing catches the exception, and the loop is over:
  \<^verbatim>\<open>gfm.lua\<close>, whose write would have been let through, is never written.
\<close>

theorem failure_ends_the_run:
  "deny_only (file_path ''commonmark'') PermissionError (file_path ''gfm'') = None \<and>
   ''gfm'' \<in> set formats \<and>
   main (deny_only (file_path ''commonmark'') PermissionError) Map.empty =
     Inl (PermissionError, \<lparr>tmpl = template, files = Map.empty\<rparr>) \<and>
   files (final_state (main (deny_only (file_path ''commonmark'') PermissionError) Map.empty))
     (file_path ''gfm'') = None"
proof -
  have "main (deny_only (file_path ''commonmark'') PermissionError) Map.empty =
     Inl (PermissionError, \<lparr>tmpl = template, files = Map.empty\<rparr>)"
    unfolding main_def formats_def
    using generate_denied[of "deny_only (file_path ''commonmark'') PermissionError" "[]"
        "''commonmark''" "Refused PermissionError"]
    by simp
  then show ?thesis
    by (simp add: final_state_def formats_def)
qed

text \<open>
  C2, amended. When the write for a format name fails, the run stops there with that
  exception: the names before it in the registry have their files, rendered as usual;
  the file of the failing name is as it was when the open was refused, and holds only
  the bytes that were written, none of its old content, when the writing broke off
  after the open; no other path has changed, so the names behind it have not been
  written; the exception of that one write is what the traceback reports, and the exit
  status is 1.
\<close>

theorem main_stops_at_first_failure:
  assumes "formats = pre @ f # post"
    and "\<forall>g\<in>set pre. env (file_path g) = None"
    and "env (file_path f) = Some flt"
  shows "\<exists>s'. main env fs = Inl (raised flt, s') \<and>
           exit_status (main env fs) = 1 \<and>
           stderr_report (main env fs) = [raised flt] \<and>
           (\<forall>g\<in>set pre. files s' (file_path g) = Some (encode_utf8 (render template g))) \<and>
           files s' (file_path f) =
             (case flt of
                Refused e \<Rightarrow> fs (file_path f)
              | Broken e n \<Rightarrow> Some (take n (encode_utf8 (render template f)))) \<and>
           (\<forall>p. p \<notin> file_path ` set pre \<longrightarrow> p \<noteq> file_path f \<longrightarrow> files s' p = fs p)"
proof -
  let ?W = "written template pre fs"
  let ?s' = "\<lparr>tmpl = template,
      files = ?W(file_path f := left_behind flt (encode_utf8 (render template f)) (?W (file_path f)))\<rparr>"
  have out: "file_path f \<notin> file_path ` set pre"
    using assms(2,3) by auto
  have run: "main env fs = Inl (raised flt, ?s')"
    unfolding main_def assms(1) using assms(2,3)
    by (simp add: generate_denied list_all_iff)
  then have "exit_status (main env fs) = 1" "stderr_report (main env fs) = [raised flt]"
    by (simp_all add: exit_status_def stderr_report_def)
  moreover have "\<forall>g\<in>set pre. files ?s' (file_path g) = Some (encode_utf8 (render template g))"
    using out by (auto simp: written_inside)
  moreover have "files ?s' (file_path f) =
             (case flt of
                Refused e \<Rightarrow> fs (file_path f)
              | Broken e n \<Rightarrow> Some (take n (encode_utf8 (render template f))))"
    using out by (cases flt) (simp_all add: written_outside)
  moreover have "\<forall>p. p \<notin> file_path ` set pre \<longrightarrow> p \<noteq> file_path f \<longrightarrow> files ?s' p = fs p"
    by (simp add: written_outside)
  ultimately show ?thesis using run by blast
qed

theorem main_stops_at_first_failure_witness:
  "formats = [''commonmark'', ''commonmark_x''] @ ''gfm'' #
      [''markdown'', ''markdown_mmd'', ''markdown_phpextra'', ''markdown_strict'',
       ''latex'', ''org'', ''rst'', ''textile''] \<and>
   list_all (\<lambda>g. break_only (file_path ''gfm'') OSError 0 (file_path g) = None)
      [''commonmark'', ''commonmark_x''] \<and>
   break_only (file_path ''gfm'') OSError 0 (file_path ''gfm'') = Some (Broken OSError 0) \<and>
   exit_status (main (break_only (file_path ''gfm'') OSError 0)
      [file_path ''gfm'' \<mapsto> encode_utf8 ''old'']) = 1 \<and>
   stderr_report (main (break_only (file_path ''gfm'') OSError 0)
      [file_path ''gfm'' \<mapsto> encode_utf8 ''old'']) = [OSError] \<and>
   files (final_state (main (break_only (file_path ''gfm'') OSError 0)
      [file_path ''gfm'' \<mapsto> encode_utf8 ''old'']))
     (file_path ''commonmark_x'') = Some (encode_utf8 (render template ''commonmark_x'')) \<and>
   files (final_state (main (break_only (file_path ''gfm'') OSError 0)
      [file_path ''gfm'' \<mapsto> encode_utf8 ''old'']))
     (file_path ''gfm'') = Some [] \<and>
   files (final_state (main (break_only (file_path ''gfm'') OSError 0)
      [file_path ''gfm'' \<mapsto> encode_utf8 ''old'']))
     (file_path ''rst'') = None"
proof -
  let ?env = "break_only (file_path ''gfm'') OSError 0"
  let ?fs = "[file_path ''gfm'' \<mapsto> encode_utf8 ''old'']"
  let ?pre = "[''commonmark'', ''commonmark_x'']"
  let ?post = "[''markdown'', ''markdown_mmd'', ''markdown_phpextra'', ''markdown_strict'',
       ''latex'', ''org'', ''rst'', ''textile'']"
  have a: "formats = ?pre @ ''gfm'' # ?post"
    by (simp add: formats_def)
  have b: "\<forall>g\<in>set ?pre. ?env (file_path g) = None"
    by simp
  have c: "?env (file_path ''gfm'') = Some (Broken OSError 0)"
    by simp
  from main_stops_at_first_failure [OF a b c, of ?fs]
  obtain s' where s': "main ?env ?fs = Inl (raised (Broken OSError 0), s')"
    "exit_status (main ?env ?fs) = 1"
    "stderr_report (main ?env ?fs) = [raised (Broken OSError 0)]"
    "\<forall>g\<in>set ?pre. files s' (file_path g) = Some (encode_utf8 (render template g))"
    "files s' (file_path ''gfm'') =
       (case Broken OSError 0 of
          Refused e \<Rightarrow> ?fs (file_path ''gfm'')
        | Broken e n \<Rightarrow> Some (take n (encode_utf8 (render template ''gfm''))))"
    "\<forall>p. p \<notin> file_path ` set ?pre \<longrightarrow> p \<noteq> file_path ''gfm'' \<longrightarrow> files s' p = ?fs p"
    by blast
  have "files s' (file_path ''rst'') = None"
    using s'(6) by simp
  moreover have "files s' (file_path ''gfm'') = Some []"
    using s'(5) by simp
  moreover have "files s' (file_path ''commonmark_x'') = Some (encode_utf8 (render template ''commonmark_x''))"
    using s'(4) by simp
  ultimately show ?thesis
    using a c s'(1,2,3) by (simp add: final_state_def)
qed

subsection \<open>A template without the placeholder\<close>

text \<open>
  C4, as the specification states it, does not hold. With a template that has no
  placeholder the run ends normally, every file is the template, and the script reports
  nothing: the report is empty, as it is for a template with the placeholder.
\<close>

theorem missing_placeholder_not_flagged:
  "occurrences ''<format>'' ''-- no token'' = 0 \<and>
   generate allow_all [''alpha'', ''beta''] \<lparr>tmpl = ''-- no token'', files = Map.empty\<rparr> =
     Inr \<lparr>tmpl = ''-- no token'',
          files = [file_path ''alpha'' \<mapsto> encode_utf8 ''-- no token'',
                   file_path ''beta'' \<mapsto> encode_utf8 ''-- no token'']\<rparr> \<and>
   stderr_report (generate allow_all [''alpha'', ''beta'']
      \<lparr>tmpl = ''-- no token'', files = Map.empty\<rparr>) = [] \<and>
   stderr_report (generate allow_all [''alpha'', ''beta'']
      \<lparr>tmpl = ''-- <format>'', files = Map.empty\<rparr>) = []"
  by (simp add: emit_allowed render_def stderr_report_def)

text \<open>
  C4, amended. When the template has no occurrence of the placeholder, rendering
  gives back the template for every identifier; when no write fails, the run ends
  normally with exit status 0, every file holds the encoded template, and nothing is
  reported.
\<close>

theorem missing_placeholder_copies_template:
  assumes "occurrences ''<format>'' t = 0"
    and "\<forall>f\<in>set fmts. env (file_path f) = None"
  shows "\<exists>s'. generate env fmts \<lparr>tmpl = t, files = fs\<rparr> = Inr s' \<and>
           (\<forall>f\<in>set fmts. render t f = t \<and> files s' (file_path f) = Some (encode_utf8 t)) \<and>
           exit_status (generate env fmts \<lparr>tmpl = t, files = fs\<rparr>) = 0 \<and>
           stderr_report (generate env fmts \<lparr>tmpl = t, files = fs\<rparr>) = []"
proof -
  let ?s' = "\<lparr>tmpl = t, files = written t fmts fs\<rparr>"
  have r: "render t f = t" for f
    unfolding render_def using assms(1) by (intro str_replace_no_occurrence) simp_all
  have run: "generate env fmts \<lparr>tmpl = t, files = fs\<rparr> = Inr ?s'"
    using assms(2) by (simp add: generate_allowed list_all_iff)
  moreover have "\<forall>f\<in>set fmts. render t f = t \<and> files ?s' (file_path f) = Some (encode_utf8 t)"
    using r by (simp add: written_inside)
  ultimately show ?thesis
    by (simp add: exit_status_def stderr_report_def)
qed

theorem missing_placeholder_copies_template_witness:
  "occurrences ''<format>'' ''-- no token'' = 0 \<and>
   list_all (\<lambda>f. allow_all (file_path f) = None) [''alpha'', ''beta''] \<and>
   render ''-- no token'' ''beta'' = ''-- no token'' \<and>
   files (final_state (generate allow_all [''alpha'', ''beta'']
      \<lparr>tmpl = ''-- no token'', files = Map.empty\<rparr>)) (file_path ''beta'') =
     Some (encode_utf8 ''-- no token'') \<and>
   exit_status (generate allow_all [''alpha'', ''beta'']
      \<lparr>tmpl = ''-- no token'', files = Map.empty\<rparr>) = 0 \<and>
   stderr_report (generate allow_all [''alpha'', ''beta'']
      \<lparr>tmpl = ''-- no token'', files = Map.empty\<rparr>) = []"
proof -
  have a: "occurrences ''<format>'' ''-- no token'' = 0"
    by simp
  have b: "\<forall>f\<in>set [''alpha'', ''beta'']. allow_all (file_path f) = None"
    by simp
  from missing_placeholder_copies_template [OF a b, of Map.empty]
  obtain s' where s': "generate allow_all [''alpha'', ''beta'']
      \<lparr>tmpl = ''-- no token'', files = Map.empty\<rparr> = Inr s'"
    "\<forall>f\<in>set [''alpha'', ''beta'']. render ''-- no token'' f = ''-- no token'' \<and>
       files s' (file_path f) = Some (encode_utf8 ''-- no token'')"
    "exit_status (generate allow_all [''alpha'', ''beta'']
      \<lparr>tmpl = ''-- no token'', files = Map.empty\<rparr>) = 0"
    "stderr_report (generate allow_all [''alpha'', ''beta'']
      \<lparr>tmpl = ''-- no token'', files = Map.empty\<rparr>) = []"
    by blast
  from s'(2) have "render ''-- no token'' ''beta'' = ''-- no token''"
    "files s' (file_path ''beta'') = Some (encode_utf8 ''-- no token'')"
    by simp_all
  with a s'(1,3,4) show ?thesis
    by (simp add: final_state_def)
qed

subsection \<open>Running again, frame, registry, determinism\<close>

text \<open>
  C6. A second run on the files the first run left changes nothing: after a run that
  ended normally, a second run under the same conditions ends normally in the same
  state, and any second run that ends normally leaves exactly the files of the first.
  More generally the outcome of the second run is the outcome of the first.
\<close>

theorem main_idempotent:
  assumes "main env fs = Inr s1"
  shows "main env (files s1) = Inr s1 \<and>
         (\<forall>env2 s2. main env2 (files s1) = Inr s2 \<longrightarrow> s2 = s1) \<and>
         main env (files (final_state (main env fs))) = main env fs"
proof -
  have s1: "s1 = \<lparr>tmpl = template, files = written template formats fs\<rparr>"
    using assms generate_Inr unfolding main_def by fastforce
  have "main env (files s1) = Inr s1"
    using generate_twice[of env formats "\<lparr>tmpl = template, files = fs\<rparr>"] assms
    unfolding main_def by (simp add: final_state_def s1)
  moreover have "s2 = s1" if "main env2 (files s1) = Inr s2" for env2 s2
  proof -
    from that have "s2 = \<lparr>tmpl = template, files = written template formats (files s1)\<rparr>"
      using generate_Inr unfolding main_def by fastforce
    then show ?thesis by (simp add: s1 written_idem)
  qed
  moreover have "main env (files (final_state (main env fs))) = main env fs"
    using assms \<open>main env (files s1) = Inr s1\<close> by (simp add: final_state_def)
  ultimately show ?thesis by blast
qed

theorem main_idempotent_witness:
  "main allow_all Map.empty = Inr (final_state (main allow_all Map.empty)) \<and>
   main allow_all (files (final_state (main allow_all Map.empty))) = main allow_all Map.empty"
proof -
  have r: "main allow_all Map.empty = Inr (final_state (main allow_all Map.empty))"
    by (simp add: main_def generate_allowed list_all_iff final_state_def)
  from main_idempotent [OF r] r show ?thesis by simp
qed

text \<open>
  C7. A pass through the loop body leaves the template as it is, and so does the whole
  loop. Whether the write goes through or fails, the pass changes no file but the one
  at the path of its format name. When the write goes through, that file holds the
  rendered text whatever it held before; when the open is refused the state is
  unchanged; when the writing breaks off after the open, that one file holds the bytes
  written so far and the rest of the state is unchanged.
\<close>

theorem emit_frame:
  "tmpl (final_state (emit env f s)) = tmpl s \<and>
   tmpl (final_state (generate env fmts s)) = tmpl s \<and>
   (\<forall>p. p \<noteq> file_path f \<longrightarrow> files (final_state (emit env f s)) p = files s p) \<and>
   (\<forall>s'. emit env f s = Inr s' \<longrightarrow>
      files s' (file_path f) = Some (encode_utf8 (render (tmpl s) f))) \<and>
   (env (file_path f) = None \<longrightarrow>
      emit env f s =
        Inr (s\<lparr>files := (files s)(file_path f \<mapsto> encode_utf8 (render (tmpl s) f))\<rparr>)) \<and>
   (\<forall>e. env (file_path f) = Some (Refused e) \<longrightarrow> emit env f s = Inl (e, s)) \<and>
   (\<forall>e n. env (file_path f) = Some (Broken e n) \<longrightarrow>
      emit env f s =
        Inl (e, s\<lparr>files := (files s)(file_path f \<mapsto>
                    take n (encode_utf8 (render (tmpl s) f)))\<rparr>))"
proof -
  have t: "tmpl (final_state (generate env fmts s)) = tmpl s"
    by (rule tmpl_generate)
  show ?thesis
  proof (cases "env (file_path f)")
    case None
    then show ?thesis
      using t by (simp add: emit_allowed final_state_def [of "Inr x" for x])
  next
    case (Some flt)
    then show ?thesis
      using t by (cases flt) (simp_all add: emit_denied final_state_def [of "Inl x" for x])
  qed
qed

theorem emit_frame_witness:
  "emit allow_all ''beta'' \<lparr>tmpl = ''format = <format>'',
      files = [file_path ''alpha'' \<mapsto> encode_utf8 ''old'', file_path ''beta'' \<mapsto> encode_utf8 ''stale'']\<rparr>
    = Inr \<lparr>tmpl = ''format = <format>'',
      files = [file_path ''alpha'' \<mapsto> encode_utf8 ''old'',
               file_path ''beta'' \<mapsto> encode_utf8 ''format = beta'']\<rparr> \<and>
   files (final_state (emit allow_all ''beta'' \<lparr>tmpl = ''format = <format>'',
      files = [file_path ''alpha'' \<mapsto> encode_utf8 ''old'', file_path ''beta'' \<mapsto> encode_utf8 ''stale'']\<rparr>))
     (file_path ''alpha'') = Some (encode_utf8 ''old'') \<and>
   tmpl (final_state (emit allow_all ''beta'' \<lparr>tmpl = ''format = <format>'',
      files = [file_path ''alpha'' \<mapsto> encode_utf8 ''old'', file_path ''beta'' \<mapsto> encode_utf8 ''stale'']\<rparr>))
     = ''format = <format>'' \<and>
   emit (break_only (file_path ''beta'') OSError 0) ''beta'' \<lparr>tmpl = ''format = <format>'',
      files = [file_path ''alpha'' \<mapsto> encode_utf8 ''old'', file_path ''beta'' \<mapsto> encode_utf8 ''stale'']\<rparr>
    = Inl (OSError, \<lparr>tmpl = ''format = <format>'',
      files = [file_path ''alpha'' \<mapsto> encode_utf8 ''old'', file_path ''beta'' \<mapsto> []]\<rparr>) \<and>
   emit (deny_only (file_path ''beta'') PermissionError) ''beta'' \<lparr>tmpl = ''format = <format>'',
      files = [file_path ''alpha'' \<mapsto> encode_utf8 ''old'', file_path ''beta'' \<mapsto> encode_utf8 ''stale'']\<rparr>
    = Inl (PermissionError, \<lparr>tmpl = ''format = <format>'',
      files = [file_path ''alpha'' \<mapsto> encode_utf8 ''old'', file_path ''beta'' \<mapsto> encode_utf8 ''stale'']\<rparr>)"
proof -
  let ?s = "\<lparr>tmpl = ''format = <format>'',
      files = [file_path ''alpha'' \<mapsto> encode_utf8 ''old'', file_path ''beta'' \<mapsto> encode_utf8 ''stale'']\<rparr>"
  let ?brk = "break_only (file_path ''beta'') OSError 0"
  let ?deny = "deny_only (file_path ''beta'') PermissionError"
  have n: "file_path ''alpha'' \<noteq> file_path ''beta''"
    by simp
  have r: "render ''format = <format>'' ''beta'' = ''format = beta''"
    by (simp add: render_def)
  from emit_frame [of allow_all "''beta''" ?s "[]"]
  have e: "emit allow_all ''beta'' ?s =
      Inr (?s\<lparr>files := (files ?s)(file_path ''beta'' \<mapsto> encode_utf8 (render (tmpl ?s) ''beta''))\<rparr>)"
    by simp
  from emit_frame [of allow_all "''beta''" ?s "[]"] n
  have k: "files (final_state (emit allow_all ''beta'' ?s)) (file_path ''alpha'') =
          files ?s (file_path ''alpha'')"
    and m: "tmpl (final_state (emit allow_all ''beta'' ?s)) = tmpl ?s"
    by blast+
  from emit_frame [of ?brk "''beta''" ?s "[]"]
  have b: "emit ?brk ''beta'' ?s =
      Inl (OSError, ?s\<lparr>files := (files ?s)(file_path ''beta'' \<mapsto>
              take 0 (encode_utf8 (render (tmpl ?s) ''beta'')))\<rparr>)"
    by simp
  from emit_frame [of ?deny "''beta''" ?s "[]"]
  have d: "emit ?deny ''beta'' ?s = Inl (PermissionError, ?s)"
    by simp
  show ?thesis
  proof (intro conjI)
    show "emit allow_all ''beta'' ?s = Inr \<lparr>tmpl = ''format = <format>'',
      files = [file_path ''alpha'' \<mapsto> encode_utf8 ''old'',
               file_path ''beta'' \<mapsto> encode_utf8 ''format = beta'']\<rparr>"
      using e r by simp
    show "files (final_state (emit allow_all ''beta'' ?s)) (file_path ''alpha'') = Some (encode_utf8 ''old'')"
      using k by simp
    show "tmpl (final_state (emit allow_all ''beta'' ?s)) = ''format = <format>''"
      using m by simp
    show "emit ?brk ''beta'' ?s = Inl (OSError, \<lparr>tmpl = ''format = <format>'',
      files = [file_path ''alpha'' \<mapsto> encode_utf8 ''old'', file_path ''beta'' \<mapsto> []]\<rparr>)"
      using b by simp
    show "emit ?deny ''beta'' ?s = Inl (PermissionError, ?s)"
      by (rule d)
  qed
qed

text \<open>
  C8. The format names of the registry are pairwise distinct, and every one of them is
  non-empty and free of path separators and white space. The path is an injective
  function of the name, so distinct names have distinct paths, and the eleven paths of
  the registry are pairwise distinct.
\<close>

theorem formats_valid:
  "distinct formats \<and> list_all valid_identifier formats \<and>
   (\<forall>a b. a \<noteq> b \<longrightarrow> file_path a \<noteq> file_path b) \<and>
   distinct (map file_path formats)"
proof -
  have d: "distinct formats" and v: "list_all valid_identifier formats"
    using formats_facts by simp_all
  have "distinct (map file_path formats)"
    using d by (simp add: distinct_map inj_on_def)
  with d v show ?thesis by simp
qed

theorem formats_valid_witness:
  "''markdown'' \<noteq> ''markdown_mmd'' \<and> file_path ''markdown'' \<noteq> file_path ''markdown_mmd'' \<and>
   valid_identifier ''markdown_mmd'' \<and> distinct formats"
proof -
  note inj = formats_valid [THEN conjunct2, THEN conjunct2, THEN conjunct1, rule_format]
  note valid = formats_valid [THEN conjunct2, THEN conjunct1]
  note dist = formats_valid [THEN conjunct1]
  have n: "''markdown'' \<noteq> ''markdown_mmd''"
    by simp
  have p: "file_path ''markdown'' \<noteq> file_path ''markdown_mmd''"
    using n by (rule inj)
  have "''markdown_mmd'' \<in> set formats"
    by (simp add: formats_def)
  with valid have v: "valid_identifier ''markdown_mmd''"
    unfolding list_all_iff by (rule bspec)
  from n p v dist show ?thesis
    by (intro conjI)
qed

text \<open>
  C10. The outcome of a run that ends normally does not depend on the environment or
  on what was on disk: any two such runs leave, at each of the 11 pairwise distinct
  paths \<^verbatim>\<open>../readers/<name>.lua\<close>, the same bytes, the encoding of the template with
  \<^verbatim>\<open><format>\<close> replaced by the name.
\<close>

theorem main_deterministic:
  assumes "main env1 fs1 = Inr s1" and "main env2 fs2 = Inr s2"
  shows "length formats = 11 \<and> distinct (map file_path formats) \<and>
         (\<forall>f\<in>set formats.
            file_path f = ''../readers/'' @ f @ ''.lua'' \<and>
            render template f = str_replace template ''<format>'' f \<and>
            files s1 (file_path f) = Some (encode_utf8 (render template f)) \<and>
            files s2 (file_path f) = files s1 (file_path f))"
proof -
  have s1: "s1 = \<lparr>tmpl = template, files = written template formats fs1\<rparr>"
    using assms(1) generate_Inr unfolding main_def by fastforce
  have s2: "s2 = \<lparr>tmpl = template, files = written template formats fs2\<rparr>"
    using assms(2) generate_Inr unfolding main_def by fastforce
  have d: "distinct (map file_path formats)"
    using formats_facts by (simp add: distinct_map inj_on_def)
  have l: "length formats = 11"
    using formats_facts by simp
  have "file_path f = ''../readers/'' @ f @ ''.lua'' \<and>
        render template f = str_replace template ''<format>'' f \<and>
        files s1 (file_path f) = Some (encode_utf8 (render template f)) \<and>
        files s2 (file_path f) = files s1 (file_path f)"
    if "f \<in> set formats" for f
  proof (intro conjI)
    show "file_path f = ''../readers/'' @ f @ ''.lua''"
      by (simp add: file_path_def)
    show "render template f = str_replace template ''<format>'' f"
      by (simp add: render_def)
    show "files s1 (file_path f) = Some (encode_utf8 (render template f))"
      using that by (simp add: s1 written_inside)
    show "files s2 (file_path f) = files s1 (file_path f)"
      using that by (simp add: s1 s2 written_inside)
  qed
  with d l show ?thesis by blast
qed

theorem main_deterministic_witness:
  "main allow_all Map.empty = Inr (final_state (main allow_all Map.empty)) \<and>
   main (deny_only ''/etc/passwd'' PermissionError) [file_path ''org'' \<mapsto> encode_utf8 ''stale'']
     = Inr (final_state (main (deny_only ''/etc/passwd'' PermissionError)
              [file_path ''org'' \<mapsto> encode_utf8 ''stale''])) \<and>
   ''org'' \<in> set formats \<and>
   files (final_state (main (deny_only ''/etc/passwd'' PermissionError)
            [file_path ''org'' \<mapsto> encode_utf8 ''stale''])) (file_path ''org'')
     = files (final_state (main allow_all Map.empty)) (file_path ''org'') \<and>
   files (final_state (main allow_all Map.empty)) (file_path ''org'')
     = Some (encode_utf8 (render template ''org''))"
proof -
  let ?env = "deny_only ''/etc/passwd'' PermissionError"
  let ?fs = "[file_path ''org'' \<mapsto> encode_utf8 ''stale'']"
  have a: "main allow_all Map.empty = Inr (final_state (main allow_all Map.empty))"
    by (simp add: main_def generate_allowed list_all_iff final_state_def)
  have "list_all (\<lambda>f. ?env (file_path f) = None) formats"
    by (simp add: formats_def file_path_def)
  then have b: "main ?env ?fs = Inr (final_state (main ?env ?fs))"
    by (simp add: main_def generate_allowed final_state_def)
  have o: "''org'' \<in> set formats"
    by (simp add: formats_def)
  note all = main_deterministic [OF a b, THEN conjunct2, THEN conjunct2, THEN bspec, OF o]
  from all
  have "files (final_state (main ?env ?fs)) (file_path ''org'') =
          files (final_state (main allow_all Map.empty)) (file_path ''org'')"
    and "files (final_state (main allow_all Map.empty)) (file_path ''org'') =
          Some (encode_utf8 (render template ''org''))"
    by blast+
  with a b o show ?thesis
    by (intro conjI)
qed

end
